theory Spec2Isabelle
  imports Complex_Main "HOL-Library.Word" "HOL-Library.Sublist"
begin

section \<open>JavaScript numbers\<close>

text \<open>
  A JavaScript Number is an IEEE-754 binary64 value: a finite rational, negative zero,
  an infinity or NaN. \<open>Fin 0\<close> is positive zero. Arithmetic on finite values is exact
  rational arithmetic followed by rounding to the nearest representable value, ties to
  even (\<open>fl_round\<close>, with the precision and the exponent range of the format).
\<close>

datatype jsnum = Fin rat | NegZero | PosInf | NegInf | NaN

definition pow2 :: "int \<Rightarrow> rat" where
  "pow2 k = (if 0 \<le> k then 2 ^ nat k else 1 / 2 ^ nat (- k))"

function bitlength :: "int \<Rightarrow> int" where
  "bitlength n = (if n \<le> 0 then 0 else 1 + bitlength (n div 2))"
  by pat_completeness auto
termination
  by (relation "measure nat") auto

declare bitlength.simps [simp del]

definition exponent_of :: "rat \<Rightarrow> int" where
  \<comment> \<open>for \<open>0 < a\<close>: the \<open>e\<close> with \<open>pow2 e \<le> a < pow2 (e + 1)\<close>\<close>
  "exponent_of a =
     (let e0 = bitlength (fst (quotient_of a)) - bitlength (snd (quotient_of a))
      in if pow2 e0 \<le> a then e0 else e0 - 1)"

definition round_half_even :: "rat \<Rightarrow> int" where
  "round_half_even q =
     (let f = \<lfloor>q\<rfloor>; d = q - of_int f
      in if d < 1 / 2 then f else if 1 / 2 < d then f + 1
         else if even f then f else f + 1)"

definition fl_round :: "nat \<Rightarrow> int \<Rightarrow> int \<Rightarrow> rat \<Rightarrow> jsnum" where
  \<comment> \<open>precision \<open>p\<close> bits, normal exponents \<open>emin .. emax\<close>\<close>
  "fl_round p emin emax r =
     (if r = 0 then Fin 0
      else let a = \<bar>r\<bar>;
               e = max (exponent_of a) emin;
               u = pow2 (e - int p + 1);
               m = of_int (round_half_even (a / u)) * u
           in if pow2 (emax + 1) \<le> m then (if r < 0 then NegInf else PosInf)
              else if m = 0 then (if r < 0 then NegZero else Fin 0)
              else Fin (if r < 0 then - m else m))"

definition round64 :: "rat \<Rightarrow> jsnum" where
  "round64 = fl_round 53 (- 1022) 1023"

definition round32 :: "rat \<Rightarrow> jsnum" where
  "round32 = fl_round 24 (- 126) 127"

text \<open>The binary operator \<open>-\<close> on Numbers.\<close>

fun js_sub :: "jsnum \<Rightarrow> jsnum \<Rightarrow> jsnum" where
  "js_sub NaN y = NaN"
| "js_sub x NaN = NaN"
| "js_sub PosInf PosInf = NaN"
| "js_sub NegInf NegInf = NaN"
| "js_sub PosInf y = PosInf"
| "js_sub NegInf y = NegInf"
| "js_sub x PosInf = NegInf"
| "js_sub x NegInf = PosInf"
| "js_sub NegZero NegZero = Fin 0"
| "js_sub NegZero (Fin b) = (if b = 0 then NegZero else round64 (- b))"
| "js_sub (Fin a) NegZero = round64 a"
| "js_sub (Fin a) (Fin b) = round64 (a - b)"

text \<open>\<open>Math.abs\<close>, the operator \<open><\<close>, \<open>isNaN\<close> and \<open>Number.EPSILON\<close>.\<close>

fun js_abs :: "jsnum \<Rightarrow> jsnum" where
  "js_abs (Fin r) = Fin \<bar>r\<bar>"
| "js_abs NegZero = Fin 0"
| "js_abs PosInf = PosInf"
| "js_abs NegInf = PosInf"
| "js_abs NaN = NaN"

fun js_lt :: "jsnum \<Rightarrow> jsnum \<Rightarrow> bool" where
  "js_lt NaN y = False"
| "js_lt x NaN = False"
| "js_lt PosInf y = False"
| "js_lt x NegInf = False"
| "js_lt x PosInf = True"
| "js_lt NegInf y = True"
| "js_lt NegZero NegZero = False"
| "js_lt NegZero (Fin b) = (0 < b)"
| "js_lt (Fin a) NegZero = (a < 0)"
| "js_lt (Fin a) (Fin b) = (a < b)"

fun isNaN :: "jsnum \<Rightarrow> bool" where
  "isNaN NaN = True"
| "isNaN x = False"

definition EPSILON :: rat where
  "EPSILON = 1 / 2 ^ 52"

section \<open>Typed arrays\<close>

text \<open>
  \<open>TextureDataArray = Uint8Array | Uint8ClampedArray | Float32Array\<close>. Reading an
  element gives a Number; writing one converts the Number to the element type
  (\<open>ToUint8\<close>, \<open>ToUint8Clamp\<close>, rounding to binary32). The byte types have no NaN:
  both conversions store NaN as 0.
\<close>

datatype TextureDataArray =
    Uint8Array "8 word list"
  | Uint8ClampedArray "8 word list"
  | Float32Array "jsnum list"

fun ToUint8 :: "jsnum \<Rightarrow> 8 word" where
  "ToUint8 (Fin r) = word_of_int (if 0 \<le> r then \<lfloor>r\<rfloor> else \<lceil>r\<rceil>)"
| "ToUint8 x = 0"

fun ToUint8Clamp :: "jsnum \<Rightarrow> 8 word" where
  "ToUint8Clamp (Fin r) =
     (if r \<le> 0 then 0 else if 255 \<le> r then 255 else word_of_int (round_half_even r))"
| "ToUint8Clamp PosInf = 255"
| "ToUint8Clamp x = 0"

fun fround :: "jsnum \<Rightarrow> jsnum" where
  "fround (Fin r) = round32 r"
| "fround x = x"

fun ta_length :: "TextureDataArray \<Rightarrow> nat" where
  "ta_length (Uint8Array bs) = length bs"
| "ta_length (Uint8ClampedArray bs) = length bs"
| "ta_length (Float32Array fs) = length fs"

text \<open>\<open>ta_get a i\<close> is \<open>a[i]\<close> and \<open>ta_set a i x\<close> is \<open>a[i] = x\<close>, for \<open>i\<close> in range.\<close>

fun ta_get :: "TextureDataArray \<Rightarrow> nat \<Rightarrow> jsnum" where
  "ta_get (Uint8Array bs) i = Fin (of_nat (unat (bs ! i)))"
| "ta_get (Uint8ClampedArray bs) i = Fin (of_nat (unat (bs ! i)))"
| "ta_get (Float32Array fs) i = fs ! i"

fun ta_set :: "TextureDataArray \<Rightarrow> nat \<Rightarrow> jsnum \<Rightarrow> TextureDataArray" where
  "ta_set (Uint8Array bs) i x = Uint8Array (bs[i := ToUint8 x])"
| "ta_set (Uint8ClampedArray bs) i x = Uint8ClampedArray (bs[i := ToUint8Clamp x])"
| "ta_set (Float32Array fs) i x = Float32Array (fs[i := fround x])"

fun is_Float32Array :: "TextureDataArray \<Rightarrow> bool" where
  "is_Float32Array (Float32Array fs) = True"
| "is_Float32Array a = False"

fun same_kind :: "TextureDataArray \<Rightarrow> TextureDataArray \<Rightarrow> bool" where
  "same_kind (Uint8Array a) (Uint8Array b) = True"
| "same_kind (Uint8ClampedArray a) (Uint8ClampedArray b) = True"
| "same_kind (Float32Array a) (Float32Array b) = True"
| "same_kind a b = False"

text \<open>What is read back from an element of \<open>a\<close> after \<open>x\<close> was written to it.\<close>

fun stored :: "TextureDataArray \<Rightarrow> jsnum \<Rightarrow> jsnum" where
  "stored (Uint8Array bs) x = Fin (of_nat (unat (ToUint8 x)))"
| "stored (Uint8ClampedArray bs) x = Fin (of_nat (unat (ToUint8Clamp x)))"
| "stored (Float32Array fs) x = fround x"

section \<open>maskData\<close>

text \<open>
  Typed arrays are objects: a variable holds a reference. The heap is the list of the
  arrays allocated so far and a reference is an index into it, so that "the same buffer"
  and "a copy" are different results. \<open>data.slice(0)\<close> allocates a copy at the next free
  reference; the loop then writes into that copy.
\<close>

type_synonym ref = nat
type_synonym heap = "TextureDataArray list"

definition is_nodata :: "jsnum \<Rightarrow> jsnum \<Rightarrow> bool" where
  \<comment> \<open>\<open>Math.abs(x - nodata) < Number.EPSILON * 2\<close>\<close>
  "is_nodata x nodata = js_lt (js_abs (js_sub x nodata)) (Fin (EPSILON * 2))"

function mask_loop :: "jsnum \<Rightarrow> nat \<Rightarrow> TextureDataArray \<Rightarrow> TextureDataArray" where
  "mask_loop nodata i maskedData =
     (if i < ta_length maskedData
      then mask_loop nodata (Suc i)
             (if is_nodata (ta_get maskedData i) nodata
              then ta_set maskedData i NaN else maskedData)
      else maskedData)"
  by pat_completeness auto
termination
proof (relation "measure (\<lambda>(nodata, i, maskedData). ta_length maskedData - i)")
  fix nodata :: jsnum and i :: nat and maskedData :: TextureDataArray
  assume "i < ta_length maskedData"
  then show "((nodata, Suc i,
               if is_nodata (ta_get maskedData i) nodata
               then ta_set maskedData i NaN else maskedData),
              nodata, i, maskedData)
             \<in> measure (\<lambda>(nodata, i, maskedData). ta_length maskedData - i)"
    by (cases maskedData) auto
qed simp

declare mask_loop.simps [simp del]

definition maskData :: "heap \<Rightarrow> ref \<Rightarrow> jsnum option \<Rightarrow> ref \<times> heap" where
  \<comment> \<open>\<open>nodata == undefined\<close> holds for \<open>null\<close> and \<open>undefined\<close>: both are \<open>None\<close>\<close>
  "maskData h data nodata =
     (case nodata of
        None \<Rightarrow> (data, h)
      | Some s \<Rightarrow>
          let maskedData = length h;
              h1 = h @ [h ! data]
          in (maskedData, h1[maskedData := mask_loop s 0 (h1 ! maskedData)]))"

section \<open>Errors, loaded values and the world outside\<close>

text \<open>
  \<open>Error msg cause\<close> is \<open>new Error(msg, {cause})\<close>; \<open>TypeError\<close> is what calling a
  method on \<open>null\<close> throws; \<open>Failure\<close> is whatever a collaborator (\<open>fetch\<close>, the
  browser's image decoder, the canvas, the raster library) raised.
\<close>

datatype jserror =
    Error string "jserror option"
  | TypeError string
  | Failure string

type_synonym url = string
type_synonym headers = "string \<rightharpoonup> string"

record TextureData =
  data :: ref
  width :: nat
  height :: nat

datatype json =
    JNull
  | JBool bool
  | JNumber jsnum
  | JString string
  | JArray "json list"
  | JObject "(string \<times> json) list"

text \<open>
  \<open>loadCached\<close> is generic in the type \<open>T\<close> of what is loaded; the module instantiates it
  with \<open>TextureData\<close> and with \<open>any\<close> (parsed JSON).
\<close>

datatype loaded = Texture TextureData | Json json

text \<open>\<open>ToBoolean\<close>: the test of \<open>if (dataOrPromise)\<close>. Objects are truthy.\<close>

fun truthy :: "loaded \<Rightarrow> bool" where
  "truthy (Texture t) = True"
| "truthy (Json JNull) = False"
| "truthy (Json (JBool b)) = b"
| "truthy (Json (JNumber n)) = (n \<noteq> Fin 0 \<and> n \<noteq> NegZero \<and> n \<noteq> NaN)"
| "truthy (Json (JString s)) = (s \<noteq> [])"
| "truthy (Json (JArray xs)) = True"
| "truthy (Json (JObject kvs)) = True"

text \<open>
  What the code does to the world outside, in order: requests sent, object URLs created
  and revoked, the source given to an image element.
\<close>

datatype effect =
    Fetch url "headers option"
  | CreateObjectURL string
  | RevokeObjectURL string
  | ImageSrc string

record world =
  heap :: heap
  effects :: "effect list"

definition emit :: "effect \<Rightarrow> world \<Rightarrow> world" where
  "emit e w = w\<lparr>effects := effects w @ [e]\<rparr>"

definition dangling :: "string \<Rightarrow> world \<Rightarrow> bool" where
  \<comment> \<open>an object URL that was created and not revoked\<close>
  "dangling u w \<longleftrightarrow>
     CreateObjectURL u \<in> set (effects w) \<and> RevokeObjectURL u \<notin> set (effects w)"

section \<open>loadImage\<close>

text \<open>
  The outcomes of the calls \<open>loadImage\<close> makes to its collaborators, in the order it
  makes them. \<open>canvas.getContext('2d')\<close> returns a context or \<open>null\<close>; the source asserts
  the result non-null (\<open>!\<close>), so \<open>context.drawImage\<close> on \<open>null\<close> throws a TypeError.
\<close>

record response =
  ok :: bool
  statusText :: string
  blob_result :: "jserror option"

record image_env =
  fetch_result :: "jserror + response"
  createObjectURL_result :: string
  decode_result :: "jserror option"
  image_width :: nat
  image_height :: nat
  getContext_result :: bool
  getImageData_result :: "jserror + 8 word list"

definition decode_error :: "url \<Rightarrow> jserror \<Rightarrow> jserror" where
  "decode_error url e = Error (''Image '' @ url @ '' can't be decoded.'') (Some e)"

definition fetch_blob ::
  "image_env \<Rightarrow> url \<Rightarrow> headers option \<Rightarrow> world \<Rightarrow> (jserror + string \<times> bool) \<times> world" where
  \<comment> \<open>lines 44 to 57: gives \<open>(blobUrl, revokeBlob)\<close>\<close>
  "fetch_blob env url headers w =
     (case headers of
        None \<Rightarrow> (Inr (url, False), w)
      | Some hs \<Rightarrow>
          let w1 = emit (Fetch url (Some hs)) w
          in (case fetch_result env of
                Inl e \<Rightarrow> (Inl e, w1)
              | Inr response \<Rightarrow>
                  if \<not> ok response
                  then (Inl (Error (''Failed to fetch image '' @ url @ '': '' @
                                     statusText response) None), w1)
                  else (case blob_result response of
                          Some e \<Rightarrow> (Inl e, w1)
                        | None \<Rightarrow>
                            (Inr (createObjectURL_result env, True),
                             emit (CreateObjectURL (createObjectURL_result env)) w1))))"

definition loadImage ::
  "image_env \<Rightarrow> url \<Rightarrow> headers option \<Rightarrow> world \<Rightarrow> (jserror + TextureData) \<times> world" where
  "loadImage env url headers w =
     (case fetch_blob env url headers w of
        (Inl e, w1) \<Rightarrow> (Inl e, w1)
      | (Inr (blobUrl, revokeBlob), w1) \<Rightarrow>
          let w2 = emit (ImageSrc blobUrl) w1
          in (case decode_result env of
                Some e \<Rightarrow>
                  (Inl (decode_error url e),
                   if revokeBlob then emit (RevokeObjectURL blobUrl) w2 else w2)
              | None \<Rightarrow>
                  if \<not> getContext_result env
                  then (Inl (TypeError ''Cannot read properties of null (reading 'drawImage')''),
                        w2)
                  else (case getImageData_result env of
                          Inl e \<Rightarrow> (Inl e, w2)
                        | Inr bytes \<Rightarrow>
                            let w3 = (if revokeBlob then emit (RevokeObjectURL blobUrl) w2
                                      else w2)
                            in (Inr \<lparr>data = length (heap w3),
                                     width = image_width env,
                                     height = image_height env\<rparr>,
                                w3\<lparr>heap := heap w3 @ [Uint8ClampedArray bytes]\<rparr>))))"

section \<open>loadGeotiff\<close>

text \<open>
  The outcomes of the calls \<open>loadGeotiff\<close> makes. \<open>getLibrary\<close> is imported from
  \<open>./library.js\<close>; its outcome is a parameter here. \<open>GeoTIFF.fromUrl\<close> opens the file
  and reads its header; \<open>getImage(0)\<close> reads the first image's directory;
  \<open>readRasters\<close> decodes the samples. \<open>library_requests\<close> are the \<open>(input, init.headers)\<close>
  of the requests the library sends through the fetch function it was given.
\<close>

datatype rasters = Supported TextureDataArray | OtherTypedArray

record geotiff_env =
  getLibrary_result :: "jserror option"
  library_requests :: "(string \<times> headers option) list"
  fromUrl_result :: "jserror option"
  getImage_result :: "jserror option"
  readRasters_result :: "jserror + rasters"
  getGDALNoData_result :: "jsnum option"
  getWidth_result :: nat
  getHeight_result :: nat

definition customFetch :: "headers \<Rightarrow> string \<times> headers option \<Rightarrow> effect" where
  \<comment> \<open>\<open>{...(init?.headers || {}), ...headers}\<close>: the caller's headers win\<close>
  "customFetch hs req =
     Fetch (fst req) (Some ((case snd req of None \<Rightarrow> Map.empty | Some ih \<Rightarrow> ih) ++ hs))"

definition defaultFetch :: "string \<times> headers option \<Rightarrow> effect" where
  "defaultFetch req = Fetch (fst req) (snd req)"

definition loadGeotiff ::
  "geotiff_env \<Rightarrow> url \<Rightarrow> headers option \<Rightarrow> world \<Rightarrow> (jserror + TextureData) \<times> world" where
  "loadGeotiff env url headers w =
     (case getLibrary_result env of
        Some e \<Rightarrow> (Inl e, w)
      | None \<Rightarrow>
          let w1 = w\<lparr>effects := effects w @
                      map (case headers of None \<Rightarrow> defaultFetch | Some hs \<Rightarrow> customFetch hs)
                        (library_requests env)\<rparr>
          in (case fromUrl_result env of
                Some e \<Rightarrow> (Inl (decode_error url e), w1)
              | None \<Rightarrow>
                  (case getImage_result env of
                     Some e \<Rightarrow> (Inl e, w1)
                   | None \<Rightarrow>
                       (case readRasters_result env of
                          Inl e \<Rightarrow> (Inl e, w1)
                        | Inr OtherTypedArray \<Rightarrow>
                            (Inl (Error ''Unsupported data format'' None), w1)
                        | Inr (Supported a) \<Rightarrow>
                            let sourceData = length (heap w1);
                                masked = maskData (heap w1 @ [a]) sourceData
                                           (getGDALNoData_result env)
                            in (Inr \<lparr>data = fst masked,
                                     width = getWidth_result env,
                                     height = getHeight_result env\<rparr>,
                                w1\<lparr>heap := snd masked\<rparr>)))))"

section \<open>The load function of loadJson\<close>

record json_env =
  json_fetch_result :: "jserror option"
  json_result :: "jserror + json"

definition fetchJson ::
  "json_env \<Rightarrow> url \<Rightarrow> headers option \<Rightarrow> world \<Rightarrow> (jserror + json) \<times> world" where
  "fetchJson env url headers w =
     (let w1 = emit (Fetch url headers) w
      in (case json_fetch_result env of
            Some e \<Rightarrow> (Inl e, w1)
          | None \<Rightarrow> (json_result env, w1)))"

section \<open>Promises, caches and the state of the module\<close>

text \<open>
  Promises and Maps are objects, named by references. A promise created by calling an
  async function carries the call (\<open>task\<close>); it is pending until the body of the function
  has run to its end. \<open>on_fulfilled\<close> is the reaction \<open>data => cache.set(url, data)\<close> that
  \<open>loadCached\<close> registers with \<open>then\<close> (the Map and the key it closes over), and \<open>reacted\<close>
  says that the reaction has run.
\<close>

type_synonym pid = nat
type_synonym cid = nat

datatype task =
    LoadImage url "headers option"
  | LoadGeotiff url "headers option"
  | FetchJson url "headers option"

fun task_headers :: "task \<Rightarrow> headers option" where
  "task_headers (LoadImage u h) = h"
| "task_headers (LoadGeotiff u h) = h"
| "task_headers (FetchJson u h) = h"

datatype settled = Pending | Fulfilled loaded | Rejected jserror

record promise =
  task :: task
  status :: settled
  on_fulfilled :: "(cid \<times> url) option"
  reacted :: bool

text \<open>A cache is a \<open>Map<string, T | Promise<T>>\<close>.\<close>

datatype entry = EPromise pid | EValue loaded

fun entry_truthy :: "entry \<Rightarrow> bool" where
  "entry_truthy (EPromise p) = True"
| "entry_truthy (EValue v) = truthy v"

datatype loader = TextureLoader | JsonLoader

record state =
  world :: world
  promises :: "promise list"
  caches :: "cid \<Rightarrow> url \<rightharpoonup> entry"
  calls :: "(loader \<times> url \<times> headers option) list"

definition DEFAULT_CACHE :: cid where
  "DEFAULT_CACHE = 0"

text \<open>
  The state when the module has been loaded: no promise, an empty default cache. The
  Maps a caller passes may already hold values.
\<close>

definition initial :: "(cid \<Rightarrow> url \<rightharpoonup> loaded) \<Rightarrow> state" where
  "initial maps =
     \<lparr>world = \<lparr>heap = [], effects = []\<rparr>,
      promises = [],
      caches = (\<lambda>c. if c = DEFAULT_CACHE then Map.empty else map_option EValue \<circ> maps c),
      calls = []\<rparr>"

text \<open>
  Calling an async function returns a new pending promise. \<open>called\<close> records that a load
  function was invoked, and with which arguments.
\<close>

definition async :: "task \<Rightarrow> state \<Rightarrow> (jserror + pid) \<times> state" where
  "async t s =
     (Inr (length (promises s)),
      s\<lparr>promises := promises s @
           [\<lparr>task = t, status = Pending, on_fulfilled = None, reacted = False\<rparr>]\<rparr>)"

definition called :: "loader \<Rightarrow> url \<Rightarrow> headers option \<Rightarrow> state \<Rightarrow> state" where
  "called lf url headers s = s\<lparr>calls := calls s @ [(lf, url, headers)]\<rparr>"

section \<open>The two load functions\<close>

text \<open>\<open>String.prototype.includes\<close>.\<close>

fun str_includes :: "string \<Rightarrow> string \<Rightarrow> bool" where
  "str_includes [] t = (t = [])"
| "str_includes (c # s) t = (prefix t (c # s) \<or> str_includes s t)"

text \<open>
  The arrow function of line 144. It is not an async function: its \<open>throw\<close> is a
  synchronous exception of the call.
\<close>

definition textureLoadFunction ::
  "url \<Rightarrow> headers option \<Rightarrow> state \<Rightarrow> (jserror + pid) \<times> state" where
  "textureLoadFunction url headers s0 =
     (let s = called TextureLoader url headers s0
      in if str_includes url ''.png'' \<or> str_includes url ''.webp'' \<or>
            str_includes url ''image/png'' \<or> str_includes url ''image/webp''
         then async (LoadImage url headers) s
         else if str_includes url ''.tif'' \<or> str_includes url ''image/tif''
         then async (LoadGeotiff url headers) s
         else (Inl (Error ''Unsupported data format'' None), s))"

text \<open>The async arrow function of line 154.\<close>

definition jsonLoadFunction ::
  "url \<Rightarrow> headers option \<Rightarrow> state \<Rightarrow> (jserror + pid) \<times> state" where
  "jsonLoadFunction url headers s0 =
     async (FetchJson url headers) (called JsonLoader url headers s0)"

section \<open>loadCached\<close>

text \<open>
  The second parameter of the wrapper: left out (the default parameter value
  \<open>DEFAULT_CACHE\<close> applies), \<open>false\<close>, or a Map. A call either throws or returns a
  \<open>T | Promise<T>\<close>.
\<close>

datatype cache_arg = CacheOmitted | CacheFalse | CacheMap cid

datatype ret = Threw jserror | Returned entry

definition cache_set :: "cid \<Rightarrow> url \<Rightarrow> entry \<Rightarrow> state \<Rightarrow> state" where
  "cache_set c url d s = s\<lparr>caches := (caches s)(c := (caches s c)(url \<mapsto> d))\<rparr>"

definition then_set :: "pid \<Rightarrow> cid \<Rightarrow> url \<Rightarrow> state \<Rightarrow> state" where
  \<comment> \<open>\<open>dataPromise.then(data => { cache.set(url, data); })\<close>\<close>
  "then_set p c url s =
     s\<lparr>promises := (promises s)[p := (promises s ! p)\<lparr>on_fulfilled := Some (c, url)\<rparr>]\<rparr>"

definition loadCached ::
  "(url \<Rightarrow> headers option \<Rightarrow> state \<Rightarrow> (jserror + pid) \<times> state) \<Rightarrow>
   url \<Rightarrow> cache_arg \<Rightarrow> state \<Rightarrow> ret \<times> state" where
  "loadCached loadFunction url cache_arg s =
     (case (case cache_arg of CacheOmitted \<Rightarrow> CacheMap DEFAULT_CACHE | c \<Rightarrow> c) of
        CacheFalse \<Rightarrow>
          (case loadFunction url None s of
             (Inl e, s1) \<Rightarrow> (Threw e, s1)
           | (Inr p, s1) \<Rightarrow> (Returned (EPromise p), s1))
      | CacheMap cache \<Rightarrow>
          (case (case caches s cache url of
                   None \<Rightarrow> None
                 | Some dataOrPromise \<Rightarrow>
                     if entry_truthy dataOrPromise then Some dataOrPromise else None) of
             Some dataOrPromise \<Rightarrow> (Returned dataOrPromise, s)
           | None \<Rightarrow>
               (case loadFunction url None s of
                  (Inl e, s1) \<Rightarrow> (Threw e, s1)
                | (Inr dataPromise, s1) \<Rightarrow>
                    (Returned (EPromise dataPromise),
                     then_set dataPromise cache url
                       (cache_set cache url (EPromise dataPromise) s1)))))"

definition loadTextureData :: "url \<Rightarrow> cache_arg \<Rightarrow> state \<Rightarrow> ret \<times> state" where
  "loadTextureData = loadCached textureLoadFunction"

definition loadJson :: "url \<Rightarrow> cache_arg \<Rightarrow> state \<Rightarrow> ret \<times> state" where
  "loadJson = loadCached jsonLoadFunction"

fun exported :: "loader \<Rightarrow> url \<Rightarrow> cache_arg \<Rightarrow> state \<Rightarrow> ret \<times> state" where
  "exported TextureLoader = loadTextureData"
| "exported JsonLoader = loadJson"

section \<open>What happens between calls\<close>

text \<open>
  A pending promise settles when the body of its async function has run: \<open>settle p env\<close>
  runs the body of \<open>p\<close>'s task against the outcomes \<open>env\<close> of its collaborators and
  fulfils or rejects \<open>p\<close> with the result. Later the reaction registered on a fulfilled
  promise runs (\<open>run_then\<close>), once. A rejected promise has no reaction to run: \<open>then\<close> was
  given a fulfilment handler only. Calls, settlements and reactions may come in any
  order; nothing but this module writes the Maps.
\<close>

datatype env = ImageEnv image_env | GeotiffEnv geotiff_env | JsonEnv json_env

fun run_task :: "task \<Rightarrow> env \<Rightarrow> world \<Rightarrow> ((jserror + loaded) \<times> world) option" where
  "run_task (LoadImage u h) (ImageEnv e) w =
     Some (map_sum id Texture (fst (loadImage e u h w)), snd (loadImage e u h w))"
| "run_task (LoadGeotiff u h) (GeotiffEnv e) w =
     Some (map_sum id Texture (fst (loadGeotiff e u h w)), snd (loadGeotiff e u h w))"
| "run_task (FetchJson u h) (JsonEnv e) w =
     Some (map_sum id Json (fst (fetchJson e u h w)), snd (fetchJson e u h w))"
| "run_task t e w = None"

fun outcome :: "jserror + loaded \<Rightarrow> settled" where
  "outcome (Inl e) = Rejected e"
| "outcome (Inr v) = Fulfilled v"

definition settle :: "pid \<Rightarrow> env \<Rightarrow> state \<Rightarrow> state" where
  "settle p env s =
     (if p < length (promises s) \<and> status (promises s ! p) = Pending
      then (case run_task (task (promises s ! p)) env (world s) of
              None \<Rightarrow> s
            | Some (r, w) \<Rightarrow>
                s\<lparr>world := w,
                  promises := (promises s)[p := (promises s ! p)\<lparr>status := outcome r\<rparr>]\<rparr>)
      else s)"

definition run_then :: "pid \<Rightarrow> state \<Rightarrow> state" where
  "run_then p s =
     (if p < length (promises s) \<and> \<not> reacted (promises s ! p)
      then (case (status (promises s ! p), on_fulfilled (promises s ! p)) of
              (Fulfilled v, Some (c, url)) \<Rightarrow>
                (cache_set c url (EValue v) s)
                  \<lparr>promises := (promises s)[p := (promises s ! p)\<lparr>reacted := True\<rparr>]\<rparr>
            | _ \<Rightarrow> s)
      else s)"

datatype event = Call loader url cache_arg | Settle pid env | RunThen pid

fun step :: "event \<Rightarrow> state \<Rightarrow> state" where
  "step (Call lf url c) s = snd (exported lf url c s)"
| "step (Settle p env) s = settle p env s"
| "step (RunThen p) s = run_then p s"

definition run :: "event list \<Rightarrow> state \<Rightarrow> state" where
  "run evs s = fold step evs s"

section \<open>Notions used in the properties\<close>

text \<open>
  The Map a call consults (none when the argument is \<open>false\<close>), the load function
  behind each exported wrapper, and the test \<open>cache.get(url)\<close> followed by
  \<open>if (dataOrPromise)\<close>.
\<close>

fun cache_of :: "cache_arg \<Rightarrow> cid option" where
  "cache_of CacheOmitted = Some DEFAULT_CACHE"
| "cache_of CacheFalse = None"
| "cache_of (CacheMap c) = Some c"

fun loadFunction_of ::
  "loader \<Rightarrow> url \<Rightarrow> headers option \<Rightarrow> state \<Rightarrow> (jserror + pid) \<times> state" where
  "loadFunction_of TextureLoader = textureLoadFunction"
| "loadFunction_of JsonLoader = jsonLoadFunction"

definition lookup :: "state \<Rightarrow> cid \<Rightarrow> url \<Rightarrow> entry option" where
  "lookup s c url =
     (case caches s c url of
        None \<Rightarrow> None
      | Some d \<Rightarrow> if entry_truthy d then Some d else None)"

definition unsupported :: jserror where
  "unsupported = Error ''Unsupported data format'' None"

text \<open>
  The state after a load function was invoked and returned a new promise, and after
  \<open>loadCached\<close> stored that promise and registered its reaction.
\<close>

definition begun :: "loader \<Rightarrow> url \<Rightarrow> headers option \<Rightarrow> task \<Rightarrow> state \<Rightarrow> state" where
  "begun lf url h t s = snd (async t (called lf url h s))"

definition stored_as :: "pid \<Rightarrow> cid \<Rightarrow> url \<Rightarrow> state \<Rightarrow> state" where
  "stored_as p c url s = then_set p c url (cache_set c url (EPromise p) s)"

text \<open>
  \<open>registered s p c u\<close>: promise \<open>p\<close> is one that \<open>loadCached\<close> stored in Map \<open>c\<close> under
  \<open>u\<close>. A promise is \<open>promoted\<close> when it was fulfilled and its reaction has put the value
  in its place. The invariant of the caches: a registered promise that is not promoted
  is still the entry under its key. \<open>extends\<close>: what later states keep of a promise.
\<close>

definition registered :: "state \<Rightarrow> pid \<Rightarrow> cid \<Rightarrow> url \<Rightarrow> bool" where
  "registered s p c u \<longleftrightarrow> p < length (promises s) \<and> on_fulfilled (promises s ! p) = Some (c, u)"

fun is_Fulfilled :: "settled \<Rightarrow> bool" where
  "is_Fulfilled (Fulfilled v) = True"
| "is_Fulfilled x = False"

definition promoted :: "promise \<Rightarrow> bool" where
  "promoted pr \<longleftrightarrow> reacted pr \<and> is_Fulfilled (status pr)"

definition cache_inv :: "state \<Rightarrow> bool" where
  "cache_inv s \<longleftrightarrow>
     (\<forall>p c u. registered s p c u \<and> \<not> promoted (promises s ! p) \<longrightarrow>
        caches s c u = Some (EPromise p))"

definition extends :: "state \<Rightarrow> state \<Rightarrow> bool" where
  "extends s s' \<longleftrightarrow>
     length (promises s) \<le> length (promises s') \<and>
     (\<forall>q < length (promises s).
        task (promises s' ! q) = task (promises s ! q) \<and>
        on_fulfilled (promises s' ! q) = on_fulfilled (promises s ! q) \<and>
        (status (promises s ! q) \<noteq> Pending \<longrightarrow>
           status (promises s' ! q) = status (promises s ! q)))"

definition headers_inv :: "state \<Rightarrow> bool" where
  "headers_inv s \<longleftrightarrow>
     (\<forall>p \<in> set (promises s). task_headers (task p) = None) \<and>
     (\<forall>x \<in> set (calls s). snd (snd x) = None)"

text \<open>
  Concrete states and outcomes used below: a default cache whose entry for \<open>u\<close> is the
  resolved JSON value \<open>null\<close>, and one whose entry for \<open>u\<close> is a pending promise; a JSON
  fetch that fails and one that gives \<open>true\<close>; a raster whose file opens but
  whose first image directory cannot be read; a raster that cannot be opened.
\<close>

definition null_cached :: state where
  "null_cached =
     run [Call JsonLoader ''u'' CacheOmitted,
          Settle 0 (JsonEnv \<lparr>json_fetch_result = None, json_result = Inr JNull\<rparr>),
          RunThen 0]
       (initial (\<lambda>c. Map.empty))"

definition one_pending :: state where
  "one_pending = run [Call JsonLoader ''u'' CacheOmitted] (initial (\<lambda>c. Map.empty))"

definition failed_fetch :: env where
  "failed_fetch =
     JsonEnv \<lparr>json_fetch_result = Some (Failure ''network''), json_result = Inr JNull\<rparr>"

definition fetched_true :: env where
  "fetched_true = JsonEnv \<lparr>json_fetch_result = None, json_result = Inr (JBool True)\<rparr>"

definition world0 :: world where
  "world0 = \<lparr>heap = [], effects = []\<rparr>"

definition directory_failure :: geotiff_env where
  "directory_failure =
     \<lparr>getLibrary_result = None,
      library_requests = [(''https://x/a.tif'', None)],
      fromUrl_result = None,
      getImage_result = Some (Failure ''invalid image file directory''),
      readRasters_result = Inr OtherTypedArray,
      getGDALNoData_result = None,
      getWidth_result = 0,
      getHeight_result = 0\<rparr>"

definition open_failure :: geotiff_env where
  "open_failure =
     \<lparr>getLibrary_result = None,
      library_requests = [(''https://x/a.tif'', None)],
      fromUrl_result = Some (Failure ''404''),
      getImage_result = None,
      readRasters_result = Inr OtherTypedArray,
      getGDALNoData_result = None,
      getWidth_result = 0,
      getHeight_result = 0\<rparr>"

section \<open>Properties of maskData\<close>

lemma ta_length_ta_set [simp]: "ta_length (ta_set a i x) = ta_length a"
  by (cases a) simp_all

lemma ta_get_ta_set:
  "i < ta_length a \<Longrightarrow> ta_get (ta_set a i x) j = (if j = i then stored a x else ta_get a j)"
  by (cases a) simp_all

lemma stored_NaN: "stored a NaN = (if is_Float32Array a then NaN else Fin 0)"
  by (cases a) simp_all

lemma same_kind_refl [simp]: "same_kind a a"
  by (cases a) simp_all

lemma same_kind_ta_set [simp]: "same_kind (ta_set a i x) b = same_kind a b"
  by (cases a; cases b) simp_all

lemma is_Float32Array_ta_set [simp]: "is_Float32Array (ta_set a i x) = is_Float32Array a"
  by (cases a) simp_all

lemma mask_loop_length [simp]: "ta_length (mask_loop s i a) = ta_length a"
  by (induction s i a rule: mask_loop.induct) (subst mask_loop.simps, simp)

lemma mask_loop_kind [simp]: "same_kind (mask_loop s i a) b = same_kind a b"
  by (induction s i a rule: mask_loop.induct) (subst mask_loop.simps, simp)

lemma mask_loop_get:
  "j < ta_length a \<Longrightarrow>
   ta_get (mask_loop s i a) j =
     (if i \<le> j \<and> is_nodata (ta_get a j) s then stored a NaN else ta_get a j)"
proof (induction s i a rule: mask_loop.induct)
  case (1 s i a)
  show ?case
  proof (cases "i < ta_length a")
    case False
    with "1.prems" show ?thesis by (subst mask_loop.simps) simp
  next
    case True
    let ?a' = "if is_nodata (ta_get a i) s then ta_set a i NaN else a"
    have len: "j < ta_length ?a'" using "1.prems" by simp
    have st: "stored ?a' NaN = stored a NaN" by (simp add: stored_NaN)
    have step: "mask_loop s i a = mask_loop s (Suc i) ?a'"
      using True by (subst mask_loop.simps) simp
    have ih: "ta_get (mask_loop s (Suc i) ?a') j =
        (if Suc i \<le> j \<and> is_nodata (ta_get ?a' j) s then stored ?a' NaN else ta_get ?a' j)"
      using "1.IH"[OF True len] .
    show ?thesis
    proof (cases "j = i")
      case True
      then show ?thesis using ih st step \<open>i < ta_length a\<close>
        by (simp add: ta_get_ta_set)
    next
      case False
      then show ?thesis using ih st step \<open>i < ta_length a\<close>
        by (auto simp add: ta_get_ta_set)
    qed
  qed
qed

lemma isNaN_iff [simp]: "isNaN x \<longleftrightarrow> x = NaN"
  by (cases x) simp_all

lemma is_nodata_NaN [simp]: "\<not> is_nodata NaN s"
  by (simp add: is_nodata_def)

lemma ta_get_byte_not_NaN: "\<not> is_Float32Array a \<Longrightarrow> ta_get a i \<noteq> NaN"
  by (cases a) simp_all

text \<open>
  Claim C2, as the code has it. Without a sentinel \<open>maskData\<close> returns the reference it
  was given and leaves the heap alone. With a sentinel \<open>s\<close> it returns a new buffer of the
  same element type and length and leaves every existing buffer alone; an element within
  \<open>2 * EPSILON\<close> of \<open>s\<close> holds what the element type stores for NaN (NaN in a
  Float32Array, 0 in the two byte arrays) and every other element is copied. So an
  output element is NaN exactly when the buffer is a Float32Array and the original
  element was NaN or within \<open>2 * EPSILON\<close> of \<open>s\<close>.
\<close>

theorem maskData_masks:
  assumes "buf < length h"
  shows "maskData h buf None = (buf, h) \<and>
         fst (maskData h buf (Some s)) = length h \<and>
         length (snd (maskData h buf (Some s))) = Suc (length h) \<and>
         (\<forall>r < length h. snd (maskData h buf (Some s)) ! r = h ! r) \<and>
         same_kind (snd (maskData h buf (Some s)) ! length h) (h ! buf) \<and>
         ta_length (snd (maskData h buf (Some s)) ! length h) = ta_length (h ! buf) \<and>
         (\<forall>i < ta_length (h ! buf).
            ta_get (snd (maskData h buf (Some s)) ! length h) i =
              (if is_nodata (ta_get (h ! buf) i) s
               then (if is_Float32Array (h ! buf) then NaN else Fin 0)
               else ta_get (h ! buf) i)) \<and>
         (\<forall>i < ta_length (h ! buf).
            isNaN (ta_get (snd (maskData h buf (Some s)) ! length h) i) \<longleftrightarrow>
              is_Float32Array (h ! buf) \<and>
              (isNaN (ta_get (h ! buf) i) \<or> is_nodata (ta_get (h ! buf) i) s))"
proof -
  have out: "snd (maskData h buf (Some s)) = h @ [mask_loop s 0 (h ! buf)]"
    using assms by (simp add: maskData_def Let_def nth_append)
  have get: "\<And>i. i < ta_length (h ! buf) \<Longrightarrow>
      ta_get (mask_loop s 0 (h ! buf)) i =
        (if is_nodata (ta_get (h ! buf) i) s
         then (if is_Float32Array (h ! buf) then NaN else Fin 0)
         else ta_get (h ! buf) i)"
    by (simp add: mask_loop_get stored_NaN)
  have nan: "\<And>i. i < ta_length (h ! buf) \<Longrightarrow>
      isNaN (ta_get (mask_loop s 0 (h ! buf)) i) \<longleftrightarrow>
        is_Float32Array (h ! buf) \<and>
        (isNaN (ta_get (h ! buf) i) \<or> is_nodata (ta_get (h ! buf) i) s)"
    using ta_get_byte_not_NaN[of "h ! buf"] by (auto simp add: get)
  show ?thesis
    using get nan by (simp add: out nth_append) (simp add: maskData_def)
qed

theorem maskData_masks_witness:
  "(0::nat) < length [Float32Array [Fin 5, NaN, Fin (- 9999)]] \<and>
   maskData [Float32Array [Fin 5, NaN, Fin (- 9999)]] 0 None =
     (0, [Float32Array [Fin 5, NaN, Fin (- 9999)]]) \<and>
   fst (maskData [Float32Array [Fin 5, NaN, Fin (- 9999)]] 0 (Some (Fin (- 9999)))) = 1 \<and>
   ta_get (snd (maskData [Float32Array [Fin 5, NaN, Fin (- 9999)]] 0 (Some (Fin (- 9999)))) ! 1) 2 = NaN \<and>
   ta_get (snd (maskData [Float32Array [Fin 5, NaN, Fin (- 9999)]] 0 (Some (Fin (- 9999)))) ! 1) 0 = Fin 5"
proof -
  have h: "(0::nat) < length [Float32Array [Fin 5, NaN, Fin (- 9999)]]" by simp
  have n2: "is_nodata (Fin (- 9999)) (Fin (- 9999))"
    by (simp add: is_nodata_def EPSILON_def round64_def fl_round_def)
  have n0: "\<not> is_nodata (Fin 5) (Fin (- 9999))"
    by code_simp
  show ?thesis
    using maskData_masks[OF h, of "Fin (- 9999)"] n2 n0 by simp
qed

text \<open>
  Claim C2 as stated fails twice: a byte equal to the sentinel is stored as 0, which is
  not NaN; and a Float32 element that was NaN already stays NaN although it is not within
  \<open>2 * EPSILON\<close> of the sentinel.
\<close>

theorem maskData_counterexample:
  "\<not> (isNaN (ta_get (snd (maskData [Uint8Array [5]] 0 (Some (Fin 5))) !
                 fst (maskData [Uint8Array [5]] 0 (Some (Fin 5)))) 0) \<longleftrightarrow>
      is_nodata (ta_get ([Uint8Array [5]] ! 0) 0) (Fin 5)) \<and>
   \<not> (isNaN (ta_get (snd (maskData [Float32Array [NaN]] 0 (Some (Fin 0))) !
                 fst (maskData [Float32Array [NaN]] 0 (Some (Fin 0)))) 0) \<longleftrightarrow>
      is_nodata (ta_get ([Float32Array [NaN]] ! 0) 0) (Fin 0))"
  by (simp add: maskData_def mask_loop.simps is_nodata_def EPSILON_def round64_def fl_round_def)

section \<open>The load functions and loadCached, case by case\<close>

lemma exported_eq: "exported lf = loadCached (loadFunction_of lf)"
  by (cases lf) (simp_all add: loadTextureData_def loadJson_def)

lemma begun_simps [simp]:
  "promises (begun lf url h t s) =
     promises s @ [\<lparr>task = t, status = Pending, on_fulfilled = None, reacted = False\<rparr>]"
  "caches (begun lf url h t s) = caches s"
  "calls (begun lf url h t s) = calls s @ [(lf, url, h)]"
  "world (begun lf url h t s) = world s"
  by (simp_all add: begun_def async_def called_def)

lemma called_simps [simp]:
  "promises (called lf url h s) = promises s"
  "caches (called lf url h s) = caches s"
  "calls (called lf url h s) = calls s @ [(lf, url, h)]"
  "world (called lf url h s) = world s"
  by (simp_all add: called_def)

lemma textureLoadFunction_cases:
  "textureLoadFunction url h s = (Inl unsupported, called TextureLoader url h s) \<or>
   textureLoadFunction url h s =
     (Inr (length (promises s)), begun TextureLoader url h (LoadImage url h) s) \<or>
   textureLoadFunction url h s =
     (Inr (length (promises s)), begun TextureLoader url h (LoadGeotiff url h) s)"
  by (simp add: textureLoadFunction_def Let_def unsupported_def begun_def async_def called_def)

lemma jsonLoadFunction_eq:
  "jsonLoadFunction url h s =
     (Inr (length (promises s)), begun JsonLoader url h (FetchJson url h) s)"
  by (simp add: jsonLoadFunction_def begun_def async_def called_def)

lemma loadFunction_cases:
  "loadFunction_of lf url h s = (Inl unsupported, called lf url h s) \<or>
   (\<exists>t. task_headers t = h \<and>
        loadFunction_of lf url h s = (Inr (length (promises s)), begun lf url h t s))"
proof (cases lf)
  case TextureLoader
  consider
      (none) "textureLoadFunction url h s = (Inl unsupported, called TextureLoader url h s)"
    | (image) "textureLoadFunction url h s =
         (Inr (length (promises s)), begun TextureLoader url h (LoadImage url h) s)"
    | (geotiff) "textureLoadFunction url h s =
         (Inr (length (promises s)), begun TextureLoader url h (LoadGeotiff url h) s)"
    using textureLoadFunction_cases[of url h s] by blast
  then show ?thesis
  proof cases
    case none
    then show ?thesis using TextureLoader by simp
  next
    case image
    then show ?thesis using TextureLoader
      by (intro disjI2 exI[of _ "LoadImage url h"]) simp
  next
    case geotiff
    then show ?thesis using TextureLoader
      by (intro disjI2 exI[of _ "LoadGeotiff url h"]) simp
  qed
next
  case JsonLoader
  show ?thesis using jsonLoadFunction_eq[of url h s] JsonLoader
    by (intro disjI2 exI[of _ "FetchJson url h"]) simp
qed

lemma stored_as_simps [simp]:
  "promises (stored_as p c url s) = (promises s)[p := (promises s ! p)\<lparr>on_fulfilled := Some (c, url)\<rparr>]"
  "caches (stored_as p c url s) = (caches s)(c := (caches s c)(url \<mapsto> EPromise p))"
  "calls (stored_as p c url s) = calls s"
  "world (stored_as p c url s) = world s"
  by (simp_all add: stored_as_def then_set_def cache_set_def)

lemma exported_bypass:
  assumes "cache_of carg = None"
  shows "exported lf url carg s = (Threw unsupported, called lf url None s) \<or>
         (\<exists>t. task_headers t = None \<and>
              exported lf url carg s =
                (Returned (EPromise (length (promises s))), begun lf url None t s))"
proof -
  have c: "carg = CacheFalse" using assms by (cases carg) simp_all
  show ?thesis
    using loadFunction_cases[of lf url None s]
    by (auto simp add: exported_eq loadCached_def c)
qed

lemma exported_hit:
  assumes "cache_of carg = Some c" and "lookup s c url = Some d"
  shows "exported lf url carg s = (Returned d, s)"
proof -
  have "carg = CacheOmitted \<and> c = DEFAULT_CACHE \<or> carg = CacheMap c"
    using assms(1) by (cases carg) auto
  then show ?thesis
    using assms(2) by (auto simp add: exported_eq loadCached_def lookup_def split: option.splits if_splits)
qed

lemma exported_miss:
  assumes "cache_of carg = Some c" and "lookup s c url = None"
  shows "exported lf url carg s = (Threw unsupported, called lf url None s) \<or>
         (\<exists>t. task_headers t = None \<and>
              exported lf url carg s =
                (Returned (EPromise (length (promises s))),
                 stored_as (length (promises s)) c url (begun lf url None t s)))"
proof -
  have "carg = CacheOmitted \<and> c = DEFAULT_CACHE \<or> carg = CacheMap c"
    using assms(1) by (cases carg) auto
  then show ?thesis
    using assms(2) loadFunction_cases[of lf url None s]
    by (auto simp add: exported_eq loadCached_def lookup_def stored_as_def split: option.splits if_splits)
qed

lemma loadCached_hit:
  assumes "cache_of carg = Some c" and "lookup s c url = Some d"
  shows "loadCached f url carg s = (Returned d, s)"
proof -
  have "carg = CacheOmitted \<and> c = DEFAULT_CACHE \<or> carg = CacheMap c"
    using assms(1) by (cases carg) auto
  then show ?thesis
    using assms(2) by (auto simp add: loadCached_def lookup_def split: option.splits if_splits)
qed

lemma exported_calls_miss:
  assumes "cache_of carg = Some c" and "lookup s c url = None"
  shows "calls (snd (exported lf url carg s)) = calls s @ [(lf, url, None)]"
  using exported_miss[OF assms, of lf] by auto

lemma lookup_truthy: "caches s c url = Some d \<Longrightarrow> entry_truthy d \<Longrightarrow> lookup s c url = Some d"
  by (simp add: lookup_def)

lemma lookup_falsy: "caches s c url = Some d \<Longrightarrow> \<not> entry_truthy d \<Longrightarrow> lookup s c url = None"
  by (simp add: lookup_def)

lemma exported_false_fst:
  "fst (exported lf url CacheFalse s) =
     (case fst (loadFunction_of lf url None s) of
        Inl e \<Rightarrow> Threw e
      | Inr p \<Rightarrow> Returned (EPromise p))"
  by (simp add: exported_eq loadCached_def split: prod.splits sum.splits)

lemma loadFunction_ignores_caches:
  "fst (loadFunction_of lf url h (s\<lparr>caches := cs\<rparr>)) = fst (loadFunction_of lf url h s)"
  by (cases lf)
    (simp_all add: textureLoadFunction_def jsonLoadFunction_def Let_def async_def called_def)

section \<open>What later states keep\<close>

lemma run_Nil [simp]: "run [] s = s"
  by (simp add: run_def)

lemma run_Cons [simp]: "run (ev # evs) s = run evs (step ev s)"
  by (simp add: run_def)

lemma settle_simps:
  "caches (settle p env s) = caches s"
  "calls (settle p env s) = calls s"
  "length (promises (settle p env s)) = length (promises s)"
  by (simp_all add: settle_def split: option.splits prod.splits)

lemma settle_nth:
  "q < length (promises s) \<Longrightarrow>
   task (promises (settle p env s) ! q) = task (promises s ! q) \<and>
   on_fulfilled (promises (settle p env s) ! q) = on_fulfilled (promises s ! q) \<and>
   reacted (promises (settle p env s) ! q) = reacted (promises s ! q) \<and>
   (status (promises s ! q) \<noteq> Pending \<longrightarrow>
      status (promises (settle p env s) ! q) = status (promises s ! q)) \<and>
   (q \<noteq> p \<longrightarrow> status (promises (settle p env s) ! q) = status (promises s ! q))"
  by (auto simp add: settle_def nth_list_update split: option.splits prod.splits)

lemma run_then_simps:
  "calls (run_then p s) = calls s"
  "world (run_then p s) = world s"
  "length (promises (run_then p s)) = length (promises s)"
  by (simp_all add: run_then_def cache_set_def split: settled.splits option.splits prod.splits)

lemma run_then_nth:
  "q < length (promises s) \<Longrightarrow>
   task (promises (run_then p s) ! q) = task (promises s ! q) \<and>
   on_fulfilled (promises (run_then p s) ! q) = on_fulfilled (promises s ! q) \<and>
   status (promises (run_then p s) ! q) = status (promises s ! q) \<and>
   (reacted (promises s ! q) \<longrightarrow> reacted (promises (run_then p s) ! q)) \<and>
   (q \<noteq> p \<longrightarrow> reacted (promises (run_then p s) ! q) = reacted (promises s ! q))"
  by (auto simp add: run_then_def cache_set_def nth_list_update
      split: settled.splits option.splits prod.splits)

lemma run_then_cases:
  "run_then p s = s \<or>
   (\<exists>v c url. p < length (promises s) \<and> \<not> reacted (promises s ! p) \<and>
      status (promises s ! p) = Fulfilled v \<and> on_fulfilled (promises s ! p) = Some (c, url) \<and>
      run_then p s =
        (cache_set c url (EValue v) s)
          \<lparr>promises := (promises s)[p := (promises s ! p)\<lparr>reacted := True\<rparr>]\<rparr>)"
  by (auto simp add: run_then_def split: settled.splits option.splits prod.splits)

lemma run_then_rejected: "status (promises s ! p) = Rejected e \<Longrightarrow> run_then p s = s"
  by (simp add: run_then_def)

lemma run_then_unregistered: "on_fulfilled (promises s ! p) = None \<Longrightarrow> run_then p s = s"
  by (simp add: run_then_def split: settled.splits)

lemma extends_refl [simp]: "extends s s"
  by (simp add: extends_def)

lemma extends_trans: "extends s s' \<Longrightarrow> extends s' s'' \<Longrightarrow> extends s s''"
  by (auto simp add: extends_def)

lemma exported_extends: "extends s (snd (exported lf url carg s))"
proof (cases "cache_of carg")
  case None
  then show ?thesis
    using exported_bypass[of carg lf url s]
    by (auto simp add: extends_def nth_append)
next
  case (Some c)
  show ?thesis
  proof (cases "lookup s c url")
    case None
    then show ?thesis
      using exported_miss[OF Some, of s url lf]
      by (auto simp add: extends_def nth_append)
  next
    case (Some d)
    then show ?thesis
      using exported_hit[OF \<open>cache_of carg = Some c\<close>, of s url d lf] by simp
  qed
qed

lemma step_extends: "extends s (step ev s)"
proof (cases ev)
  case (Call lf url carg)
  then show ?thesis using exported_extends by simp
next
  case (Settle p env)
  then show ?thesis using settle_nth[of _ s p env]
    by (simp add: extends_def settle_simps)
next
  case (RunThen p)
  then show ?thesis using run_then_nth[of _ s p]
    by (simp add: extends_def run_then_simps)
qed

lemma run_extends: "extends s (run evs s)"
proof (induction evs arbitrary: s)
  case Nil
  then show ?case by simp
next
  case (Cons ev evs)
  show ?case using extends_trans[OF step_extends Cons.IH] by simp
qed

lemma registered_extends: "registered s p c u \<Longrightarrow> extends s s' \<Longrightarrow> registered s' p c u"
  by (auto simp add: registered_def extends_def)

section \<open>The invariant of the caches\<close>

lemma cache_inv_initial: "cache_inv (initial maps)"
  by (simp add: cache_inv_def registered_def initial_def)

lemma cache_inv_called: "cache_inv s \<Longrightarrow> cache_inv (called lf url h s)"
  by (simp add: cache_inv_def registered_def)

lemma cache_inv_begun: "cache_inv s \<Longrightarrow> cache_inv (begun lf url h t s)"
  by (auto simp add: cache_inv_def registered_def nth_append split: if_splits)

lemma cache_inv_stored_as:
  assumes inv: "cache_inv s" and miss: "lookup s c url = None"
  shows "cache_inv (stored_as (length (promises s)) c url (begun lf url h t s))"
  unfolding cache_inv_def
proof (intro allI impI)
  fix p c' u'
  let ?s' = "stored_as (length (promises s)) c url (begun lf url h t s)"
  assume a: "registered ?s' p c' u' \<and> \<not> promoted (promises ?s' ! p)"
  show "caches ?s' c' u' = Some (EPromise p)"
  proof (cases "p = length (promises s)")
    case True
    with a show ?thesis by (simp add: registered_def)
  next
    case False
    with a have lt: "p < length (promises s)" by (simp add: registered_def)
    with a False have "registered s p c' u' \<and> \<not> promoted (promises s ! p)"
      by (simp add: registered_def nth_append promoted_def)
    with inv have old: "caches s c' u' = Some (EPromise p)"
      by (simp add: cache_inv_def)
    have "\<not> (c' = c \<and> u' = url)"
      using old miss by (auto simp add: lookup_def)
    with old show ?thesis by auto
  qed
qed

lemma cache_inv_exported: "cache_inv s \<Longrightarrow> cache_inv (snd (exported lf url carg s))"
proof (cases "cache_of carg")
  case None
  assume "cache_inv s"
  then show ?thesis
    using exported_bypass[OF None, of lf url s] cache_inv_called cache_inv_begun by auto
next
  case (Some c)
  assume inv: "cache_inv s"
  show ?thesis
  proof (cases "lookup s c url")
    case None
    then show ?thesis
      using exported_miss[OF Some None, of lf] cache_inv_called[OF inv]
        cache_inv_stored_as[OF inv None]
      by auto
  next
    case (Some d)
    then show ?thesis
      using exported_hit[OF \<open>cache_of carg = Some c\<close> Some, of lf] inv by simp
  qed
qed

lemma cache_inv_settle: "cache_inv s \<Longrightarrow> cache_inv (settle p env s)"
  unfolding cache_inv_def
proof (intro allI impI)
  fix q c u
  assume inv: "\<forall>p c u. registered s p c u \<and> \<not> promoted (promises s ! p) \<longrightarrow>
      caches s c u = Some (EPromise p)"
  assume a: "registered (settle p env s) q c u \<and> \<not> promoted (promises (settle p env s) ! q)"
  then have lt: "q < length (promises s)" by (simp add: registered_def settle_simps)
  have reg: "registered s q c u"
    using a lt settle_nth[OF lt, of p env] by (simp add: registered_def)
  have "\<not> promoted (promises s ! q)"
  proof (cases "status (promises s ! q) = Pending")
    case True
    then show ?thesis by (simp add: promoted_def)
  next
    case False
    then show ?thesis using a settle_nth[OF lt, of p env] by (simp add: promoted_def)
  qed
  with reg inv have "caches s c u = Some (EPromise q)" by blast
  then show "caches (settle p env s) c u = Some (EPromise q)" by (simp add: settle_simps)
qed

lemma cache_inv_run_then: "cache_inv s \<Longrightarrow> cache_inv (run_then p s)"
proof -
  assume inv: "cache_inv s"
  consider (same) "run_then p s = s"
    | (set) v c url where "p < length (promises s)" "\<not> reacted (promises s ! p)"
        "status (promises s ! p) = Fulfilled v" "on_fulfilled (promises s ! p) = Some (c, url)"
        "run_then p s =
          (cache_set c url (EValue v) s)
            \<lparr>promises := (promises s)[p := (promises s ! p)\<lparr>reacted := True\<rparr>]\<rparr>"
    using run_then_cases[of p s] by blast
  then show ?thesis
  proof cases
    case same
    then show ?thesis using inv by simp
  next
    case set
    have own: "caches s c url = Some (EPromise p)"
      using inv set(1,2,4) by (simp add: cache_inv_def registered_def promoted_def)
    show ?thesis
      unfolding cache_inv_def
    proof (intro allI impI)
      fix q c' u'
      assume a: "registered (run_then p s) q c' u' \<and> \<not> promoted (promises (run_then p s) ! q)"
      then have lt: "q < length (promises s)" by (simp add: registered_def set(5) cache_set_def)
      have ne: "q \<noteq> p" using a set by (auto simp add: cache_set_def promoted_def)
      have "registered s q c' u' \<and> \<not> promoted (promises s ! q)"
        using a lt ne by (simp add: registered_def set(5) cache_set_def promoted_def)
      with inv have old: "caches s c' u' = Some (EPromise q)" by (simp add: cache_inv_def)
      have "\<not> (c' = c \<and> u' = url)" using old own ne by auto
      with old show "caches (run_then p s) c' u' = Some (EPromise q)"
        by (auto simp add: set(5) cache_set_def)
    qed
  qed
qed

lemma cache_inv_step: "cache_inv s \<Longrightarrow> cache_inv (step ev s)"
  by (cases ev) (simp_all add: cache_inv_exported cache_inv_settle cache_inv_run_then)

lemma cache_inv_run: "cache_inv s \<Longrightarrow> cache_inv (run evs s)"
  by (induction evs arbitrary: s) (simp_all add: cache_inv_step)

lemma cache_inv_reachable: "cache_inv (run evs (initial maps))"
  by (simp add: cache_inv_run cache_inv_initial)

lemma rejected_not_promoted: "status pr = Rejected e \<Longrightarrow> \<not> promoted pr"
  by (simp add: promoted_def)

lemma load_started:
  assumes cache: "cache_of carg = Some c"
    and first: "exported lf url carg s = (Returned (EPromise p), s1)"
    and started: "calls s1 \<noteq> calls s"
  shows "p = length (promises s) \<and> registered s1 p c url \<and>
         calls s1 = calls s @ [(lf, url, None)]"
proof (cases "lookup s c url")
  case (Some d)
  then show ?thesis
    using exported_hit[OF cache Some, of lf] first started by simp
next
  case None
  then show ?thesis
    using exported_miss[OF cache None, of lf] first
    by (auto simp add: registered_def)
qed

lemma registered_unpromoted_hit:
  assumes "cache_inv s" and "registered s p c url" and "\<not> promoted (promises s ! p)"
    and "cache_of carg = Some c"
  shows "caches s c url = Some (EPromise p) \<and> exported lf url carg s = (Returned (EPromise p), s)"
proof -
  have e: "caches s c url = Some (EPromise p)"
    using assms(1-3) by (simp add: cache_inv_def)
  then have "lookup s c url = Some (EPromise p)" by (simp add: lookup_def)
  then show ?thesis using e exported_hit[OF assms(4)] by simp
qed

lemmas eval_defs = run_def initial_def loadJson_def loadTextureData_def loadCached_def
  jsonLoadFunction_def textureLoadFunction_def async_def called_def cache_set_def then_set_def
  settle_def run_then_def fetchJson_def emit_def DEFAULT_CACHE_def

section \<open>Headers\<close>

lemma headers_inv_exported: "headers_inv s \<Longrightarrow> headers_inv (snd (exported lf url carg s))"
proof (cases "cache_of carg")
  case None
  assume "headers_inv s"
  then show ?thesis
    using exported_bypass[OF None, of lf url s] by (auto simp add: headers_inv_def)
next
  case (Some c)
  assume inv: "headers_inv s"
  show ?thesis
  proof (cases "lookup s c url")
    case None
    then show ?thesis
      using exported_miss[OF Some None, of lf] inv
      by (auto simp add: headers_inv_def dest!: set_update_subset_insert[THEN subsetD])
  next
    case (Some d)
    then show ?thesis
      using exported_hit[OF \<open>cache_of carg = Some c\<close> Some, of lf] inv by simp
  qed
qed

lemma tasks_settle: "map task (promises (settle p env s)) = map task (promises s)"
  by (auto simp add: settle_def map_update list_update_same_conv split: option.splits)

lemma tasks_run_then: "map task (promises (run_then p s)) = map task (promises s)"
  by (auto simp add: run_then_def cache_set_def map_update list_update_same_conv
      split: settled.splits option.splits)

lemma headers_inv_alt:
  "headers_inv s \<longleftrightarrow>
     (\<forall>t \<in> set (map task (promises s)). task_headers t = None) \<and>
     (\<forall>x \<in> set (calls s). snd (snd x) = None)"
  by (auto simp add: headers_inv_def)

lemma headers_inv_step: "headers_inv s \<Longrightarrow> headers_inv (step ev s)"
proof (cases ev)
  case (Call lf url carg)
  assume "headers_inv s"
  then show ?thesis using Call headers_inv_exported by simp
next
  case (Settle p env)
  assume "headers_inv s"
  then show ?thesis
    unfolding headers_inv_alt by (simp only: Settle step.simps tasks_settle settle_simps) 
next
  case (RunThen p)
  assume "headers_inv s"
  then show ?thesis
    unfolding headers_inv_alt by (simp only: RunThen step.simps tasks_run_then run_then_simps)
qed

lemma headers_inv_run: "headers_inv s \<Longrightarrow> headers_inv (run evs s)"
  by (induction evs arbitrary: s) (simp_all add: headers_inv_step)

text \<open>
  Claim C1 says that a headers map given to \<open>loadTextureData\<close> or \<open>loadJson\<close> is
  forwarded to the load function. The wrapper returned by \<open>loadCached\<close> has the
  parameters \<open>(url, cache)\<close> only and calls \<open>loadFunction(url)\<close>: in every state the module
  can reach, every load function was invoked with \<open>headers\<close> undefined and every task
  started runs without headers.
\<close>

theorem headers_never_reach_the_loader:
  "(\<forall>p \<in> set (promises (run evs (initial maps))). task_headers (task p) = None) \<and>
   (\<forall>x \<in> set (calls (run evs (initial maps))). snd (snd x) = None)"
proof -
  have "headers_inv (initial maps)" by (simp add: headers_inv_def initial_def)
  then have "headers_inv (run evs (initial maps))" by (rule headers_inv_run)
  then show ?thesis by (simp add: headers_inv_def)
qed

theorem headers_never_reach_the_loader_witness:
  "map task (promises (run [Call TextureLoader ''https://x/a.png'' CacheOmitted,
       Call TextureLoader ''https://x/a.tif'' CacheFalse] (initial (\<lambda>c. Map.empty)))) =
     [LoadImage ''https://x/a.png'' None, LoadGeotiff ''https://x/a.tif'' None] \<and>
   task_headers (LoadImage ''https://x/a.png'' None) = None"
proof -
  have "map task (promises (run [Call TextureLoader ''https://x/a.png'' CacheOmitted,
       Call TextureLoader ''https://x/a.tif'' CacheFalse] (initial (\<lambda>c. Map.empty)))) =
     [LoadImage ''https://x/a.png'' None, LoadGeotiff ''https://x/a.tif'' None]"
    by (simp add: eval_defs)
  then show ?thesis
    using headers_never_reach_the_loader[of "[Call TextureLoader ''https://x/a.png'' CacheOmitted,
       Call TextureLoader ''https://x/a.tif'' CacheFalse]" "\<lambda>c. Map.empty"]
    by simp
qed

section \<open>Cache hits\<close>

text \<open>
  What \<open>loadCached\<close> does with an entry it finds. A truthy entry (every promise, pending
  or settled, and every resolved value but \<open>null\<close>, \<open>false\<close>, \<open>0\<close>, \<open>NaN\<close> and the empty
  string) is returned as it is and nothing changes, whatever the load function. The test
  of line 131 is a test of truthiness, so with an entry that is a falsy resolved value the
  load function is invoked.
\<close>

theorem cache_hit_returns_entry:
  assumes "cache_of carg = Some c" and "caches s c url = Some d"
  shows "(entry_truthy d \<longrightarrow> loadCached f url carg s = (Returned d, s)) \<and>
         (\<forall>p. d = EPromise p \<longrightarrow> loadCached f url carg s = (Returned (EPromise p), s)) \<and>
         (\<not> entry_truthy d \<longrightarrow>
            calls (snd (exported lf url carg s)) = calls s @ [(lf, url, None)])"
  using assms loadCached_hit[OF assms(1), of s url d f] exported_calls_miss[OF assms(1), of s url lf]
  by (auto simp add: lookup_truthy lookup_falsy)

theorem cache_hit_returns_entry_witness:
  "cache_of CacheOmitted = Some DEFAULT_CACHE \<and>
   caches (run [Call JsonLoader ''u'' CacheOmitted] (initial (\<lambda>c. Map.empty))) DEFAULT_CACHE ''u'' =
     Some (EPromise 0) \<and>
   loadCached jsonLoadFunction ''u'' CacheOmitted
       (run [Call JsonLoader ''u'' CacheOmitted] (initial (\<lambda>c. Map.empty))) =
     (Returned (EPromise 0), run [Call JsonLoader ''u'' CacheOmitted] (initial (\<lambda>c. Map.empty)))"
proof -
  have c: "cache_of CacheOmitted = Some DEFAULT_CACHE" by simp
  have e: "caches (run [Call JsonLoader ''u'' CacheOmitted] (initial (\<lambda>c. Map.empty)))
      DEFAULT_CACHE ''u'' = Some (EPromise 0)"
    by (simp add: eval_defs)
  show ?thesis
    using cache_hit_returns_entry[OF c e, of jsonLoadFunction JsonLoader] c e by simp
qed

text \<open>
  Claim C3 says that an entry found under the URL, a pending promise or any resolved
  value, is returned as it is and that the load function is not invoked. Line 138 stores
  every resolved value, also a falsy one: after \<open>loadJson\<close> has resolved to \<open>null\<close> the
  entry under the URL is \<open>null\<close>. The next call finds it, fails the test of line 131,
  invokes the load function a second time and returns a new promise.
\<close>

theorem falsy_cached_value_is_reloaded:
  "caches null_cached DEFAULT_CACHE ''u'' = Some (EValue (Json JNull)) \<and>
   fst (loadJson ''u'' CacheOmitted null_cached) = Returned (EPromise 1) \<and>
   calls null_cached = [(JsonLoader, ''u'', None)] \<and>
   calls (snd (loadJson ''u'' CacheOmitted null_cached)) =
     [(JsonLoader, ''u'', None), (JsonLoader, ''u'', None)]"
  by (simp add: null_cached_def eval_defs)

section \<open>Concurrent calls\<close>

text \<open>
  Claim C4. In a state the module can reach, let a call with a Map (the default one or
  the caller's) start a load: it invokes the load function, exactly once, and returns the
  promise \<open>p\<close>. Whatever happens next, as long as \<open>p\<close> is pending, a call with the same
  URL and the same Map, through either exported wrapper, returns the same promise \<open>p\<close>
  and changes nothing: the load function is not invoked again, and both callers hold one
  promise, so they see one value or one failure. And no two pending promises are
  registered under the same Map and URL.
\<close>

theorem concurrent_calls_share_one_load:
  assumes reach: "s = run evs (initial maps)"
    and cache: "cache_of carg = Some c"
    and first: "exported lf url carg s = (Returned (EPromise p), s1)"
    and started: "calls s1 \<noteq> calls s"
    and later: "s2 = run evs' s1"
    and unresolved: "status (promises s2 ! p) = Pending"
  shows "calls s1 = calls s @ [(lf, url, None)] \<and>
         exported lf' url carg s2 = (Returned (EPromise p), s2) \<and>
         (\<forall>q q' c' u'.
            registered s2 q c' u' \<and> status (promises s2 ! q) = Pending \<and>
            registered s2 q' c' u' \<and> status (promises s2 ! q') = Pending \<longrightarrow> q = q')"
proof -
  have s1: "s1 = snd (exported lf url carg s)" using first by simp
  have inv2: "cache_inv s2"
    unfolding later s1 reach
    by (intro cache_inv_run cache_inv_exported cache_inv_reachable)
  have reg1: "registered s1 p c url" and one: "calls s1 = calls s @ [(lf, url, None)]"
    using load_started[OF cache first started] by blast+
  have reg2: "registered s2 p c url"
    using registered_extends[OF reg1] run_extends[of s1 evs'] later by simp
  have np: "\<not> promoted (promises s2 ! p)"
    using unresolved by (simp add: promoted_def)
  have hit: "caches s2 c url = Some (EPromise p)"
    "exported lf' url carg s2 = (Returned (EPromise p), s2)"
    using registered_unpromoted_hit[OF inv2 reg2 np cache] by simp_all
  have "q = q'" if "registered s2 q c' u' \<and> status (promises s2 ! q) = Pending \<and>
      registered s2 q' c' u' \<and> status (promises s2 ! q') = Pending" for q q' c' u'
  proof -
    have "\<not> promoted (promises s2 ! q)" "\<not> promoted (promises s2 ! q')"
      using that by (simp_all add: promoted_def)
    then have "caches s2 c' u' = Some (EPromise q)" "caches s2 c' u' = Some (EPromise q')"
      using inv2 that by (simp_all add: cache_inv_def)
    then show ?thesis by simp
  qed
  then show ?thesis using one hit(2) by blast
qed

theorem concurrent_calls_share_one_load_witness:
  "cache_of CacheOmitted = Some DEFAULT_CACHE \<and>
   fst (loadTextureData ''https://x/a.png'' CacheOmitted (initial (\<lambda>c. Map.empty))) =
     Returned (EPromise 0) \<and>
   calls (snd (loadTextureData ''https://x/a.png'' CacheOmitted (initial (\<lambda>c. Map.empty)))) =
     [(TextureLoader, ''https://x/a.png'', None)] \<and>
   status (promises (run [Call JsonLoader ''https://x/b.json'' CacheOmitted]
      (snd (loadTextureData ''https://x/a.png'' CacheOmitted (initial (\<lambda>c. Map.empty))))) ! 0) =
     Pending \<and>
   fst (loadTextureData ''https://x/a.png'' CacheOmitted
      (run [Call JsonLoader ''https://x/b.json'' CacheOmitted]
        (snd (loadTextureData ''https://x/a.png'' CacheOmitted (initial (\<lambda>c. Map.empty)))))) =
     Returned (EPromise 0) \<and>
   calls (snd (loadTextureData ''https://x/a.png'' CacheOmitted
      (run [Call JsonLoader ''https://x/b.json'' CacheOmitted]
        (snd (loadTextureData ''https://x/a.png'' CacheOmitted (initial (\<lambda>c. Map.empty))))))) =
     [(TextureLoader, ''https://x/a.png'', None), (JsonLoader, ''https://x/b.json'', None)]"
proof -
  let ?s = "initial (\<lambda>c. Map.empty)"
  let ?s1 = "snd (loadTextureData ''https://x/a.png'' CacheOmitted ?s)"
  let ?s2 = "run [Call JsonLoader ''https://x/b.json'' CacheOmitted] ?s1"
  have reach: "?s = run [] (initial (\<lambda>c. Map.empty))" by simp
  have cache: "cache_of CacheOmitted = Some DEFAULT_CACHE" by simp
  have r: "fst (loadTextureData ''https://x/a.png'' CacheOmitted ?s) = Returned (EPromise 0)"
    by (simp add: eval_defs)
  have first: "exported TextureLoader ''https://x/a.png'' CacheOmitted ?s =
      (Returned (EPromise 0), ?s1)"
    using r by (simp add: prod_eq_iff)
  have c1: "calls ?s1 = [(TextureLoader, ''https://x/a.png'', None)]"
    by (simp add: eval_defs)
  have started: "calls ?s1 \<noteq> calls ?s"
    unfolding c1 by (simp add: initial_def)
  have unresolved: "status (promises ?s2 ! 0) = Pending"
    by (simp add: eval_defs)
  have c2: "calls ?s2 =
      [(TextureLoader, ''https://x/a.png'', None), (JsonLoader, ''https://x/b.json'', None)]"
    by (simp add: eval_defs)
  have "exported TextureLoader ''https://x/a.png'' CacheOmitted ?s2 = (Returned (EPromise 0), ?s2)"
    using concurrent_calls_share_one_load[OF reach cache first started refl unresolved,
        where lf' = TextureLoader]
    by blast
  then have "fst (loadTextureData ''https://x/a.png'' CacheOmitted ?s2) = Returned (EPromise 0)"
    and "calls (snd (loadTextureData ''https://x/a.png'' CacheOmitted ?s2)) = calls ?s2"
    by simp_all
  then show ?thesis using cache r c1 unresolved c2 by simp
qed

section \<open>Bypassing the cache\<close>

text \<open>
  Claim C5. A call with \<open>false\<close> for the cache invokes the load function, once; it leaves
  every Map as it was; its result does not depend on what the Maps hold; and the promise
  it returns has no reaction registered, now or later, so that its settling writes no
  cache either.
\<close>

theorem cache_false_bypasses:
  "calls (snd (exported lf url CacheFalse s)) = calls s @ [(lf, url, None)] \<and>
   caches (snd (exported lf url CacheFalse s)) = caches s \<and>
   fst (exported lf url CacheFalse (s\<lparr>caches := cs\<rparr>)) = fst (exported lf url CacheFalse s) \<and>
   (\<forall>p. fst (exported lf url CacheFalse s) = Returned (EPromise p) \<longrightarrow>
      p = length (promises s) \<and>
      (\<forall>evs. on_fulfilled (promises (run evs (snd (exported lf url CacheFalse s))) ! p) = None \<and>
         run_then p (run evs (snd (exported lf url CacheFalse s))) =
           run evs (snd (exported lf url CacheFalse s))))"
proof -
  let ?r = "exported lf url CacheFalse s"
  have none: "cache_of CacheFalse = None" by simp
  consider (threw) "?r = (Threw unsupported, called lf url None s)"
    | (fresh) t where "?r = (Returned (EPromise (length (promises s))), begun lf url None t s)"
    using exported_bypass[OF none, of lf url s] by blast
  then have main: "calls (snd ?r) = calls s @ [(lf, url, None)] \<and> caches (snd ?r) = caches s \<and>
    (\<forall>p. fst ?r = Returned (EPromise p) \<longrightarrow>
      p = length (promises s) \<and>
      (\<forall>evs. on_fulfilled (promises (run evs (snd ?r)) ! p) = None \<and>
         run_then p (run evs (snd ?r)) = run evs (snd ?r)))"
  proof cases
    case threw
    then show ?thesis by simp
  next
    case fresh
    have "on_fulfilled (promises (run evs (snd ?r)) ! length (promises s)) = None" for evs
      using run_extends[of "snd ?r" evs] by (simp add: fresh extends_def)
    then show ?thesis using run_then_unregistered by (simp add: fresh)
  qed
  have "fst (exported lf url CacheFalse (s\<lparr>caches := cs\<rparr>)) = fst ?r"
    using loadFunction_ignores_caches[of lf url None cs s]
    by (simp add: exported_false_fst)
  with main show ?thesis by blast
qed

theorem cache_false_bypasses_witness:
  "caches one_pending DEFAULT_CACHE ''u'' = Some (EPromise 0) \<and>
   fst (loadJson ''u'' CacheFalse one_pending) = Returned (EPromise 1) \<and>
   calls (snd (loadJson ''u'' CacheFalse one_pending)) =
     [(JsonLoader, ''u'', None), (JsonLoader, ''u'', None)] \<and>
   caches (snd (loadJson ''u'' CacheFalse one_pending)) = caches one_pending \<and>
   run_then 1 (run [Settle 1 fetched_true] (snd (loadJson ''u'' CacheFalse one_pending))) =
     run [Settle 1 fetched_true] (snd (loadJson ''u'' CacheFalse one_pending))"
proof -
  let ?s1 = "snd (exported JsonLoader ''u'' CacheFalse one_pending)"
  have e: "caches one_pending DEFAULT_CACHE ''u'' = Some (EPromise 0)"
    by (simp add: one_pending_def eval_defs)
  have c: "calls one_pending = [(JsonLoader, ''u'', None)]"
    by (simp add: one_pending_def eval_defs)
  have r: "fst (exported JsonLoader ''u'' CacheFalse one_pending) = Returned (EPromise 1)"
    by (simp add: one_pending_def eval_defs)
  have all: "calls ?s1 = calls one_pending @ [(JsonLoader, ''u'', None)] \<and>
      caches ?s1 = caches one_pending \<and>
      (\<forall>p. fst (exported JsonLoader ''u'' CacheFalse one_pending) = Returned (EPromise p) \<longrightarrow>
        (\<forall>evs. run_then p (run evs ?s1) = run evs ?s1))"
    using cache_false_bypasses[of JsonLoader "''u''" one_pending] by blast
  then have "\<forall>evs. run_then 1 (run evs ?s1) = run evs ?s1"
    using r by blast
  then have "run_then 1 (run [Settle 1 fetched_true] ?s1) = run [Settle 1 fetched_true] ?s1"
    by blast
  then show ?thesis using e c r all by simp
qed

section \<open>The format dispatcher\<close>

lemma str_includes_iff: "str_includes s t \<longleftrightarrow> sublist t s"
  by (induction s) (simp_all add: sublist_Cons_right)

text \<open>
  Claim C6. A URL that contains \<open>.png\<close>, \<open>.webp\<close>, \<open>image/png\<close> or \<open>image/webp\<close> goes to
  \<open>loadImage\<close>; otherwise a URL that contains \<open>.tif\<close> or \<open>image/tif\<close> goes to
  \<open>loadGeotiff\<close>; otherwise the call fails with the error "Unsupported data format".
  A URL with both a PNG and a TIFF marker is in the first case.
\<close>

theorem dispatcher_precedence:
  "(sublist ''.png'' url \<or> sublist ''.webp'' url \<or>
    sublist ''image/png'' url \<or> sublist ''image/webp'' url \<longrightarrow>
      textureLoadFunction url h s = async (LoadImage url h) (called TextureLoader url h s)) \<and>
   (\<not> (sublist ''.png'' url \<or> sublist ''.webp'' url \<or>
        sublist ''image/png'' url \<or> sublist ''image/webp'' url) \<and>
    (sublist ''.tif'' url \<or> sublist ''image/tif'' url) \<longrightarrow>
      textureLoadFunction url h s = async (LoadGeotiff url h) (called TextureLoader url h s)) \<and>
   (\<not> (sublist ''.png'' url \<or> sublist ''.webp'' url \<or>
        sublist ''image/png'' url \<or> sublist ''image/webp'' url) \<and>
    \<not> (sublist ''.tif'' url \<or> sublist ''image/tif'' url) \<longrightarrow>
      textureLoadFunction url h s =
        (Inl (Error ''Unsupported data format'' None), called TextureLoader url h s) \<and>
      fst (loadTextureData url CacheFalse s) = Threw (Error ''Unsupported data format'' None))"
  by (simp add: textureLoadFunction_def Let_def str_includes_iff loadTextureData_def
      loadCached_def)

theorem dispatcher_precedence_witness:
  "sublist ''.png'' ''https://x/a.png.tif'' \<and> sublist ''.tif'' ''https://x/a.png.tif'' \<and>
   textureLoadFunction ''https://x/a.png.tif'' None (initial (\<lambda>c. Map.empty)) =
     async (LoadImage ''https://x/a.png.tif'' None)
       (called TextureLoader ''https://x/a.png.tif'' None (initial (\<lambda>c. Map.empty))) \<and>
   \<not> sublist ''.png'' ''https://x/a.tif'' \<and>
   textureLoadFunction ''https://x/a.tif'' None (initial (\<lambda>c. Map.empty)) =
     async (LoadGeotiff ''https://x/a.tif'' None)
       (called TextureLoader ''https://x/a.tif'' None (initial (\<lambda>c. Map.empty))) \<and>
   fst (loadTextureData ''https://x/a.xyz'' CacheFalse (initial (\<lambda>c. Map.empty))) =
     Threw (Error ''Unsupported data format'' None)"
proof -
  have png: "sublist ''.png'' ''https://x/a.png.tif''" "sublist ''.tif'' ''https://x/a.png.tif''"
    by (simp_all add: str_includes_iff[symmetric])
  have tif: "\<not> (sublist ''.png'' ''https://x/a.tif'' \<or> sublist ''.webp'' ''https://x/a.tif'' \<or>
        sublist ''image/png'' ''https://x/a.tif'' \<or> sublist ''image/webp'' ''https://x/a.tif'')"
    "sublist ''.tif'' ''https://x/a.tif''"
    by (simp_all add: str_includes_iff[symmetric])
  have xyz: "\<not> (sublist ''.png'' ''https://x/a.xyz'' \<or> sublist ''.webp'' ''https://x/a.xyz'' \<or>
        sublist ''image/png'' ''https://x/a.xyz'' \<or> sublist ''image/webp'' ''https://x/a.xyz'')"
    "\<not> (sublist ''.tif'' ''https://x/a.xyz'' \<or> sublist ''image/tif'' ''https://x/a.xyz'')"
    by (simp_all add: str_includes_iff[symmetric])
  show ?thesis
    using dispatcher_precedence[of "''https://x/a.png.tif''" None "initial (\<lambda>c. Map.empty)"]
      dispatcher_precedence[of "''https://x/a.tif''" None "initial (\<lambda>c. Map.empty)"]
      dispatcher_precedence[of "''https://x/a.xyz''" None "initial (\<lambda>c. Map.empty)"]
      png tif xyz
    by blast
qed

section \<open>How errors reach the caller\<close>

text \<open>
  Claim C7 says that every error reaches the caller as a rejected promise. The load
  function of \<open>loadTextureData\<close> is not async, so for a URL of no recognized format the
  call itself throws, and no promise is created.
\<close>

theorem unsupported_format_is_thrown:
  "loadTextureData ''https://x/a.xyz'' CacheOmitted (initial (\<lambda>c. Map.empty)) =
     (Threw (Error ''Unsupported data format'' None),
      called TextureLoader ''https://x/a.xyz'' None (initial (\<lambda>c. Map.empty))) \<and>
   promises (snd (loadTextureData ''https://x/a.xyz'' CacheOmitted (initial (\<lambda>c. Map.empty)))) = []"
  by (simp add: initial_def loadTextureData_def loadCached_def textureLoadFunction_def
      called_def DEFAULT_CACHE_def)

text \<open>
  Claim C8, as the code has it. A failure of \<open>GeoTIFF.fromUrl\<close>, with or without the
  custom fetch, is caught and rewrapped into an error whose message names the URL and
  whose cause is the failure. A failure of \<open>getLibrary\<close>, of \<open>getImage\<close> or of
  \<open>readRasters\<close> is outside the \<open>try\<close> and reaches the caller as it is.
\<close>

theorem loadGeotiff_failures:
  "(getLibrary_result env = Some e \<longrightarrow> fst (loadGeotiff env url headers w) = Inl e) \<and>
   (getLibrary_result env = None \<and> fromUrl_result env = Some e \<longrightarrow>
      fst (loadGeotiff env url headers w) =
        Inl (Error (''Image '' @ url @ '' can't be decoded.'') (Some e))) \<and>
   (getLibrary_result env = None \<and> fromUrl_result env = None \<and>
    getImage_result env = Some e \<longrightarrow>
      fst (loadGeotiff env url headers w) = Inl e) \<and>
   (getLibrary_result env = None \<and> fromUrl_result env = None \<and>
    getImage_result env = None \<and> readRasters_result env = Inl e \<longrightarrow>
      fst (loadGeotiff env url headers w) = Inl e)"
  by (simp add: loadGeotiff_def Let_def decode_error_def)

theorem loadGeotiff_failures_witness:
  "getLibrary_result open_failure = None \<and>
   fromUrl_result open_failure = Some (Failure ''404'') \<and>
   fst (loadGeotiff open_failure ''https://x/a.tif'' None world0) =
     Inl (Error ''Image https://x/a.tif can't be decoded.'' (Some (Failure ''404'')))"
proof -
  have h: "getLibrary_result open_failure = None \<and>
      fromUrl_result open_failure = Some (Failure ''404'')"
    by (simp add: open_failure_def)
  then show ?thesis
    using loadGeotiff_failures[of open_failure "Failure ''404''" "''https://x/a.tif''" None world0]
    by simp
qed

text \<open>
  Claim C8 as stated fails when the file opens and reading its first image directory
  fails: the caller gets the raw failure, not a decode error that wraps it.
\<close>

theorem loadGeotiff_counterexample:
  "getLibrary_result directory_failure = None \<and>
   fromUrl_result directory_failure = None \<and>
   getImage_result directory_failure = Some (Failure ''invalid image file directory'') \<and>
   fst (loadGeotiff directory_failure ''https://x/a.tif'' None world0) =
     Inl (Failure ''invalid image file directory'') \<and>
   fst (loadGeotiff directory_failure ''https://x/a.tif'' None world0) \<noteq>
     Inl (decode_error ''https://x/a.tif'' (Failure ''invalid image file directory''))"
  by (simp add: directory_failure_def loadGeotiff_def decode_error_def world0_def)

section \<open>Object URLs\<close>

text \<open>
  When \<open>loadImage\<close> has created an object URL, it revokes it when \<open>image.decode()\<close> fails
  and when the pixels have been read.
\<close>

lemma loadImage_releases_when_handled:
  assumes "\<not> dangling u w"
    and "decode_result env \<noteq> None \<or>
         (getContext_result env \<and> (\<exists>bytes. getImageData_result env = Inr bytes))"
  shows "\<not> dangling u (snd (loadImage env url headers w))"
  using assms
  by (auto simp add: loadImage_def fetch_blob_def emit_def dangling_def Let_def
      split: option.splits sum.splits if_splits)











section \<open>Failed loads\<close>

text \<open>
  Claim C10. In a state the module can reach, let a call with a Map start a load and
  let the promise \<open>p\<close> it returned be rejected later. From then on, whatever happens,
  the entry under the URL is still \<open>p\<close>, \<open>p\<close> is still rejected with the same error, its
  reaction writes nothing, and every call with the same URL and Map returns \<open>p\<close> and
  changes nothing: the load function is not invoked again.
\<close>

theorem rejected_load_is_replayed:
  assumes reach: "s = run evs (initial maps)"
    and cache: "cache_of carg = Some c"
    and first: "exported lf url carg s = (Returned (EPromise p), s1)"
    and started: "calls s1 \<noteq> calls s"
    and failed: "s2 = run evs' s1" "status (promises s2 ! p) = Rejected e"
    and later: "s3 = run evs'' s2"
  shows "caches s3 c url = Some (EPromise p) \<and>
         status (promises s3 ! p) = Rejected e \<and>
         run_then p s3 = s3 \<and>
         exported lf' url carg s3 = (Returned (EPromise p), s3)"
proof -
  have s1: "s1 = snd (exported lf url carg s)" using first by simp
  have inv3: "cache_inv s3"
    unfolding later failed(1) s1 reach
    by (intro cache_inv_run cache_inv_exported cache_inv_reachable)
  have reg1: "registered s1 p c url"
    using load_started[OF cache first started] by blast
  have reg2: "registered s2 p c url"
    using registered_extends[OF reg1] run_extends[of s1 evs'] failed(1) by simp
  have ext: "extends s2 s3" using run_extends[of s2 evs''] later by simp
  have reg3: "registered s3 p c url" using registered_extends[OF reg2 ext] .
  have st3: "status (promises s3 ! p) = Rejected e"
    using ext reg2 failed(2) by (simp add: extends_def registered_def)
  show ?thesis
    using registered_unpromoted_hit[OF inv3 reg3 rejected_not_promoted[OF st3] cache, of lf']
      st3 run_then_rejected[OF st3]
    by simp
qed

theorem rejected_load_is_replayed_witness:
  "cache_of CacheOmitted = Some DEFAULT_CACHE \<and>
   fst (loadJson ''u'' CacheOmitted (initial (\<lambda>c. Map.empty))) = Returned (EPromise 0) \<and>
   status (promises (run [Settle 0 failed_fetch]
       (snd (loadJson ''u'' CacheOmitted (initial (\<lambda>c. Map.empty))))) ! 0) =
     Rejected (Failure ''network'') \<and>
   fst (loadJson ''u'' CacheOmitted
     (run [RunThen 0, Call JsonLoader ''v'' CacheOmitted]
       (run [Settle 0 failed_fetch]
         (snd (loadJson ''u'' CacheOmitted (initial (\<lambda>c. Map.empty))))))) =
     Returned (EPromise 0) \<and>
   status (promises (run [RunThen 0, Call JsonLoader ''v'' CacheOmitted]
       (run [Settle 0 failed_fetch]
         (snd (loadJson ''u'' CacheOmitted (initial (\<lambda>c. Map.empty)))))) ! 0) =
     Rejected (Failure ''network'')"
proof -
  let ?s = "initial (\<lambda>c. Map.empty)"
  let ?s1 = "snd (loadJson ''u'' CacheOmitted ?s)"
  let ?s2 = "run [Settle 0 failed_fetch] ?s1"
  let ?s3 = "run [RunThen 0, Call JsonLoader ''v'' CacheOmitted] ?s2"
  have reach: "?s = run [] (initial (\<lambda>c. Map.empty))" by simp
  have cache: "cache_of CacheOmitted = Some DEFAULT_CACHE" by simp
  have r: "fst (loadJson ''u'' CacheOmitted ?s) = Returned (EPromise 0)"
    by (simp add: eval_defs)
  have first: "exported JsonLoader ''u'' CacheOmitted ?s = (Returned (EPromise 0), ?s1)"
    using r by (simp add: prod_eq_iff)
  have started: "calls ?s1 \<noteq> calls ?s"
    by (simp add: eval_defs)
  have failed: "status (promises ?s2 ! 0) = Rejected (Failure ''network'')"
    by (simp add: eval_defs failed_fetch_def)
  have "status (promises ?s3 ! 0) = Rejected (Failure ''network'') \<and>
      exported JsonLoader ''u'' CacheOmitted ?s3 = (Returned (EPromise 0), ?s3)"
    using rejected_load_is_replayed[OF reach cache first started refl failed refl,
        where lf' = JsonLoader]
    by blast
  then show ?thesis using cache r failed by simp
qed

end
